theory Spec2Isabelle
  imports
    Main
    "HOL-Library.Char_ord"
    "HOL-Library.List_Lexorder"
    "HOL-Library.Sublist"
begin

section \<open>Data model of \<open>importlinter/application/contract_utils.py\<close>\<close>

text \<open>
  \<open>class AlertLevel(enum.Enum)\<close> with its three members, and the exception
  \<open>MissingImport\<close>, which carries one message.
\<close>

datatype AlertLevel = NONE | WARN | ERROR

datatype error = MissingImport string

text \<open>
  Modelled from the spec: the value objects \<open>Module\<close> and \<open>DirectImport\<close> of
  \<open>importlinter.domain.imports\<close> (imported by the source, not part of it). A module is its
  dotted name; two direct imports are equal iff both endpoints are equal, which is the
  equality of the datatype.
\<close>

datatype Module = Module (name: string)

datatype DirectImport = DirectImport (importer_of: Module) (imported_of: Module)

text \<open>
  One occurrence-detail dictionary, as \<open>get_import_details\<close> returns it and as
  \<open>filter_ignored_lines\<close> receives it. The keys \<open>importer\<close>, \<open>imported\<close> and
  \<open>line_number\<close> are read with \<open>detail[...]\<close>, so they are always there; the key
  \<open>line_contents\<close> is read with \<open>detail.get("line_contents", "")\<close>, so it may be
  missing: an option.
\<close>

record ImportDetail =
  importer :: string
  imported :: string
  line_number :: int
  line_contents :: "string option"

section \<open>The import graph (external collaborator)\<close>

text \<open>
  Modelled from the spec: \<open>grimp.ImportGraph\<close>, which the source borrows and whose code is
  outside the repository. It is a mutable collection of modules and direct imports with the
  query operations and the removal operation the source calls.

  \<^item> \<open>module_names\<close>: the modules added on their own (a module with no import is one);
    the endpoints of every import are modules too.
  \<^item> \<open>import_occurrences\<close>: every direct import with its occurrences, each a line number and, when
    known, the text of the line.
  \<^item> \<open>matcher\<close>: the pattern oracle, \<open>matcher g pattern (a, b)\<close> saying that the
    expression \<open>pattern\<close> matches the concrete edge from \<open>a\<close> to \<open>b\<close>.
  \<^item> \<open>removal_log\<close>: a ghost field, the history of the calls of \<open>remove_import\<close>, by
    which one can say how often the operation was invoked.

  Every operation takes the graph and returns its result with the graph after the call, so
  that what the source does to the graph is a matter of proof and not of notation.
\<close>

record ImportGraph =
  module_names :: "string list"
  import_occurrences :: "((string \<times> string) \<times> (int \<times> string option) list) list"
  matcher :: "string \<Rightarrow> string \<times> string \<Rightarrow> bool"
  removal_log :: "(string \<times> string) list"

text \<open>The edge set of the graph.\<close>

definition direct_imports :: "ImportGraph \<Rightarrow> (string \<times> string) set" where
  "direct_imports g = set (map fst (import_occurrences g))"

text \<open>\<open>graph.modules\<close>\<close>

definition modules :: "ImportGraph \<Rightarrow> string list \<times> ImportGraph" where
  "modules g =
     (remdups (module_names g @ concat (map (\<lambda>(e, occs). [fst e, snd e]) (import_occurrences g))), g)"

text \<open>\<open>graph.find_modules_directly_imported_by(module)\<close>\<close>

definition find_modules_directly_imported_by ::
    "string \<Rightarrow> ImportGraph \<Rightarrow> string list \<times> ImportGraph" where
  "find_modules_directly_imported_by m g =
     (remdups (map (\<lambda>(e, occs). snd e) (filter (\<lambda>(e, occs). fst e = m) (import_occurrences g))), g)"

text \<open>\<open>graph.get_import_details(importer=a, imported=b)\<close>\<close>

definition get_import_details ::
    "string \<Rightarrow> string \<Rightarrow> ImportGraph \<Rightarrow> ImportDetail list \<times> ImportGraph" where
  "get_import_details a b g =
     (concat (map (\<lambda>(e, occs).
          map (\<lambda>(n, t). \<lparr>importer = a, imported = b, line_number = n, line_contents = t\<rparr>) occs)
        (filter (\<lambda>(e, occs). e = (a, b)) (import_occurrences g))), g)"

text \<open>
  \<open>graph.find_matching_direct_imports(import_expression=pattern)\<close>: the dictionaries it
  returns have the keys \<open>importer\<close> and \<open>imported\<close>; they are pairs here.
\<close>

definition find_matching_direct_imports ::
    "string \<Rightarrow> ImportGraph \<Rightarrow> (string \<times> string) list \<times> ImportGraph" where
  "find_matching_direct_imports pattern g =
     (filter (matcher g pattern) (map fst (import_occurrences g)), g)"

text \<open>
  \<open>graph.remove_import(importer=a, imported=b)\<close>: the edge goes with all its occurrences.
\<close>

definition remove_import :: "string \<Rightarrow> string \<Rightarrow> ImportGraph \<Rightarrow> ImportGraph" where
  "remove_import a b g =
     g\<lparr>import_occurrences := filter (\<lambda>(e, occs). e \<noteq> (a, b)) (import_occurrences g),
       removal_log := removal_log g @ [(a, b)]\<rparr>"

section \<open>Python sets that the source iterates\<close>

text \<open>
  A Python \<open>set\<close> the source iterates over is a list without repetition, in the order of
  insertion. Python iterates a set in the order of the slots of its hash table, which the
  language leaves open: the order is given by a slot number for each element (elements of
  equal slot come in the order of insertion), and the slot function is a parameter, so
  every theorem holds for every iteration order.
\<close>

definition set_add :: "'a \<Rightarrow> 'a list \<Rightarrow> 'a list" where
  "set_add x s = (if x \<in> set s then s else s @ [x])"

definition set_iter :: "('a \<Rightarrow> nat) \<Rightarrow> 'a list \<Rightarrow> 'a list" where
  "set_iter slot s = sort_key slot s"

definition set_update :: "('a \<Rightarrow> nat) \<Rightarrow> 'a list \<Rightarrow> 'a list \<Rightarrow> 'a list" where
  "set_update slot s other = fold set_add (set_iter slot other) s"

text \<open>
  What the source takes from its runtime and from \<open>importlinter.domain.imports\<close>:
  \<open>str(import_expression)\<close> for the opaque \<open>ImportExpression\<close> (the type \<open>'e\<close>), and the
  slot functions of the two sets it iterates.
\<close>

record 'e runtime =
  expr_str :: "'e \<Rightarrow> string"
  expr_slot :: "'e \<Rightarrow> nat"
  import_slot :: "DirectImport \<Rightarrow> nat"

section \<open>The inline-ignore scanner\<close>

text \<open>\<open>_has_inline_ignore\<close>: \<open>keyword in line_contents\<close>, the substring test of \<open>str\<close>.\<close>

fun has_inline_ignore :: "string \<Rightarrow> string \<Rightarrow> bool" where
  "has_inline_ignore [] keyword = (keyword = [])"
| "has_inline_ignore (c # cs) keyword =
     (prefix keyword (c # cs) \<or> has_inline_ignore cs keyword)"

text \<open>The innermost loop of \<open>get_inline_ignored_lines\<close>, over the details of one edge.\<close>

fun scan_details ::
    "ImportDetail list \<Rightarrow> string \<Rightarrow> (string \<times> string \<times> int) set \<Rightarrow> (string \<times> string \<times> int) set" where
  "scan_details [] keyword ignored_lines = ignored_lines"
| "scan_details (detail # rest) keyword ignored_lines =
     scan_details rest keyword
       (if has_inline_ignore (case line_contents detail of None \<Rightarrow> [] | Some t \<Rightarrow> t) keyword
        then insert (importer detail, imported detail, line_number detail) ignored_lines
        else ignored_lines)"

text \<open>The middle loop, over the modules that \<open>module\<close> imports directly.\<close>

fun scan_imported ::
    "string \<Rightarrow> string list \<Rightarrow> string \<Rightarrow> (string \<times> string \<times> int) set \<times> ImportGraph
     \<Rightarrow> (string \<times> string \<times> int) set \<times> ImportGraph" where
  "scan_imported module [] keyword st = st"
| "scan_imported module (imported_module # rest) keyword (ignored_lines, g) =
     (let (import_details, g1) = get_import_details module imported_module g
      in scan_imported module rest keyword
           (scan_details import_details keyword ignored_lines, g1))"

text \<open>The outer loop, over \<open>graph.modules\<close>.\<close>

fun scan_modules ::
    "string list \<Rightarrow> string \<Rightarrow> (string \<times> string \<times> int) set \<times> ImportGraph
     \<Rightarrow> (string \<times> string \<times> int) set \<times> ImportGraph" where
  "scan_modules [] keyword st = st"
| "scan_modules (module # rest) keyword (ignored_lines, g) =
     (let (importeds, g1) = find_modules_directly_imported_by module g
      in scan_modules rest keyword (scan_imported module importeds keyword (ignored_lines, g1)))"

definition get_inline_ignored_lines ::
    "ImportGraph \<Rightarrow> string \<Rightarrow> (string \<times> string \<times> int) set \<times> ImportGraph" where
  "get_inline_ignored_lines g inline_ignore_keyword =
     (let (ms, g1) = modules g
      in scan_modules ms inline_ignore_keyword ({}, g1))"

section \<open>Filtering occurrence details\<close>

definition filter_ignored_lines ::
    "ImportDetail list \<Rightarrow> (string \<times> string \<times> int) set \<Rightarrow> ImportDetail list" where
  "filter_ignored_lines import_details inline_ignored_lines =
     [detail. detail \<leftarrow> import_details,
        (importer detail, imported detail, line_number detail) \<notin> inline_ignored_lines]"

section \<open>The ignore-rule resolver\<close>

definition build_missing_import_message :: "'e runtime \<Rightarrow> 'e \<Rightarrow> string" where
  "build_missing_import_message rt expression =
     ''No matches for ignored import '' @ expr_str rt expression @ ''.''"

text \<open>
  \<open>_handle_unresolved_import_expressions\<close>. The \<open>WARN\<close> branch iterates the set as it
  is; the \<open>ERROR\<close> branch takes element \<open>0\<close> of \<open>sorted(expressions, key=str)\<close>, which
  exists there, the set being non-empty.
\<close>

definition handle_unresolved_import_expressions ::
    "'e runtime \<Rightarrow> 'e list \<Rightarrow> AlertLevel \<Rightarrow> error + string list" where
  "handle_unresolved_import_expressions rt expressions alert_level =
     (if alert_level = NONE then Inr []
      else if expressions = [] then Inr []
      else if alert_level = WARN then
        Inr (map (build_missing_import_message rt) (set_iter (expr_slot rt) expressions))
      else
        Inl (MissingImport (build_missing_import_message rt
          (hd (sort_key (expr_str rt) (set_iter (expr_slot rt) expressions))))))"

text \<open>
  The first loop of \<open>remove_ignored_imports\<close>: for every expression, ask the graph for the
  matching direct imports, and either add them to \<open>imports_to_remove\<close> or add the
  expression to \<open>unresolved_expressions\<close>.
\<close>

fun collect_matches ::
    "'e runtime \<Rightarrow> 'e list \<Rightarrow> (DirectImport list \<times> 'e list) \<times> ImportGraph
     \<Rightarrow> (DirectImport list \<times> 'e list) \<times> ImportGraph" where
  "collect_matches rt [] st = st"
| "collect_matches rt (import_expression # rest) ((imports_to_remove, unresolved_expressions), g) =
     (let (matched_imports, g1) =
            find_matching_direct_imports (expr_str rt import_expression) g
      in if matched_imports \<noteq> [] then
           collect_matches rt rest
             ((set_update (import_slot rt) imports_to_remove
                 (fold set_add
                    (map (\<lambda>matched_import.
                       DirectImport (Module (fst matched_import)) (Module (snd matched_import)))
                     matched_imports) []),
               unresolved_expressions), g1)
         else
           collect_matches rt rest
             ((imports_to_remove, set_add import_expression unresolved_expressions), g1))"

text \<open>The second loop: one \<open>remove_import\<close> for every element of \<open>imports_to_remove\<close>.\<close>

fun remove_all :: "DirectImport list \<Rightarrow> ImportGraph \<Rightarrow> ImportGraph" where
  "remove_all [] g = g"
| "remove_all (import_to_remove # rest) g =
     remove_all rest
       (remove_import (name (importer_of import_to_remove))
          (name (imported_of import_to_remove)) g)"

text \<open>
  \<open>remove_ignored_imports\<close>. The result is what the call returns or raises, with the
  graph as the call leaves it. \<open>ignore_imports or []\<close> turns \<open>None\<close> into the empty list.
\<close>

definition remove_ignored_imports ::
    "'e runtime \<Rightarrow> ImportGraph \<Rightarrow> 'e list option \<Rightarrow> AlertLevel
     \<Rightarrow> (error + string list) \<times> ImportGraph" where
  "remove_ignored_imports rt graph ignore_imports unmatched_alerting =
     (let ((imports_to_remove, unresolved_expressions), g1) =
            collect_matches rt (case ignore_imports of None \<Rightarrow> [] | Some es \<Rightarrow> es)
              (([], []), graph)
      in case handle_unresolved_import_expressions rt unresolved_expressions unmatched_alerting of
           Inl err \<Rightarrow> (Inl err, g1)
         | Inr warnings \<Rightarrow>
             (Inr warnings, remove_all (set_iter (import_slot rt) imports_to_remove) g1))"

section \<open>Example inputs\<close>

text \<open>
  A pattern oracle for the examples: an expression matches the edge it spells out, and
  \<open>a -> *\<close> matches every edge that leaves \<open>a\<close>.
\<close>

definition simple_match :: "string \<Rightarrow> string \<times> string \<Rightarrow> bool" where
  "simple_match pattern e =
     (pattern = fst e @ '' -> '' @ snd e \<or> pattern = fst e @ '' -> *'')"

text \<open>
  The graph of the spec's scenarios: \<open>a\<close> imports \<open>b\<close> at line 3, with the marker on the
  line, and \<open>c\<close> at line 5, without it.
\<close>

definition scenario_graph :: ImportGraph where
  "scenario_graph =
     \<lparr>module_names = [''a'', ''b'', ''c''],
      import_occurrences =
        [((''a'', ''b''), [(3, Some ''import b  # lint-ignore'')]),
         ((''a'', ''c''), [(5, Some ''import c'')])],
      matcher = simple_match,
      removal_log = []\<rparr>"

text \<open>A graph with an occurrence whose detail has no line text.\<close>

definition untexted_graph :: ImportGraph where
  "untexted_graph =
     \<lparr>module_names = [],
      import_occurrences = [((''a'', ''b''), [(3, None), (4, Some ''import b'')])],
      matcher = simple_match,
      removal_log = []\<rparr>"

text \<open>
  A runtime whose expressions are their own string form and whose sets put every element
  in the same slot, so that they iterate in the order of insertion: one of the orders a
  Python process can show, the hash of a string changing from one process to the next.
\<close>

definition insertion_order :: "string runtime" where
  "insertion_order = \<lparr>expr_str = (\<lambda>s. s), expr_slot = (\<lambda>e. 0), import_slot = (\<lambda>d. 0)\<rparr>"

text \<open>Two occurrence details of the same edge, at lines 3 and 7.\<close>

definition detail_3 :: ImportDetail where
  "detail_3 = \<lparr>importer = ''a'', imported = ''b'', line_number = 3,
     line_contents = Some ''import b  # lint-ignore''\<rparr>"

definition detail_7 :: ImportDetail where
  "detail_7 = \<lparr>importer = ''a'', imported = ''b'', line_number = 7,
     line_contents = Some ''from b import x''\<rparr>"

section \<open>The pieces: Python sets\<close>

lemma set_set_add: "set (set_add x s) = insert x (set s)"
  by (auto simp: set_add_def)

lemma distinct_set_add: "distinct s \<Longrightarrow> distinct (set_add x s)"
  by (simp add: set_add_def)

lemma set_fold_set_add: "set (fold set_add xs s) = set s \<union> set xs"
  by (induction xs arbitrary: s) (auto simp: set_set_add)

lemma distinct_fold_set_add: "distinct s \<Longrightarrow> distinct (fold set_add xs s)"
  by (induction xs arbitrary: s) (auto simp: distinct_set_add)

lemma set_set_iter: "set (set_iter slot s) = set s"
  by (simp add: set_iter_def)

lemma distinct_set_iter: "distinct (set_iter slot s) = distinct s"
  by (simp add: set_iter_def)

lemma set_iter_Nil: "set_iter slot [] = []"
  by (simp add: set_iter_def)

lemma set_set_update: "set (set_update slot s other) = set s \<union> set other"
  by (simp add: set_update_def set_fold_set_add set_set_iter)

lemma distinct_set_update: "distinct s \<Longrightarrow> distinct (set_update slot s other)"
  by (simp add: set_update_def distinct_fold_set_add)

section \<open>Evaluating the examples\<close>

lemmas graph_ops = direct_imports_def modules_def find_modules_directly_imported_by_def
  get_import_details_def find_matching_direct_imports_def remove_import_def

lemmas resolver_defs = remove_ignored_imports_def handle_unresolved_import_expressions_def
  build_missing_import_message_def set_iter_def set_update_def set_add_def

lemmas example_defs = scenario_graph_def untexted_graph_def insertion_order_def
  simple_match_def

section \<open>The inline-ignore scanner: what it returns\<close>

text \<open>The substring test of the source is the sublist relation on the characters.\<close>

lemma has_inline_ignore_sublist: "has_inline_ignore line keyword = sublist keyword line"
  by (induction line) (simp_all add: sublist_Cons_right)

lemma scan_details_eq:
  "scan_details ds k acc =
     acc \<union> {(importer d, imported d, line_number d) | d.
              d \<in> set ds \<and> has_inline_ignore (case line_contents d of None \<Rightarrow> [] | Some t \<Rightarrow> t) k}"
  by (induction ds arbitrary: acc) auto

lemma scan_imported_eq:
  "scan_imported m bs k (acc, g) =
     (acc \<union> (\<Union>b\<in>set bs. scan_details (fst (get_import_details m b g)) k {}), g)"
proof (induction bs arbitrary: acc)
  case Nil
  show ?case by simp
next
  case (Cons b bs)
  have "scan_details (fst (get_import_details m b g)) k acc
        = acc \<union> scan_details (fst (get_import_details m b g)) k {}"
    using scan_details_eq [of _ k acc] scan_details_eq [of _ k "{}"] by simp
  then show ?case
    using Cons.IH by (auto simp: get_import_details_def)
qed

lemma scan_modules_eq:
  "scan_modules ms k (acc, g) =
     (acc \<union> (\<Union>m\<in>set ms. \<Union>b\<in>set (fst (find_modules_directly_imported_by m g)).
                scan_details (fst (get_import_details m b g)) k {}), g)"
proof (induction ms arbitrary: acc)
  case Nil
  show ?case by simp
next
  case (Cons m ms)
  have "snd (find_modules_directly_imported_by m g) = g"
    by (simp add: find_modules_directly_imported_by_def)
  then show ?case
    using Cons.IH by (auto simp: scan_imported_eq split: prod.splits)
qed

lemma get_inline_ignored_lines_eq:
  "get_inline_ignored_lines g k =
     ((\<Union>m\<in>set (fst (modules g)). \<Union>b\<in>set (fst (find_modules_directly_imported_by m g)).
                scan_details (fst (get_import_details m b g)) k {}), g)"
  by (simp add: get_inline_ignored_lines_def modules_def scan_modules_eq)

lemma scanned_iff:
  "(a, b, n) \<in> fst (get_inline_ignored_lines g k) \<longleftrightarrow>
     (\<exists>occs t. ((a, b), occs) \<in> set (import_occurrences g) \<and> (n, t) \<in> set occs
        \<and> sublist k (case t of None \<Rightarrow> [] | Some s \<Rightarrow> s))"
  (is "?L = ?R")
proof
  assume ?L
  then show ?R
    by (fastforce simp: get_inline_ignored_lines_eq scan_details_eq has_inline_ignore_sublist
        modules_def find_modules_directly_imported_by_def get_import_details_def)
next
  assume ?R
  then obtain occs t where h: "((a, b), occs) \<in> set (import_occurrences g)" "(n, t) \<in> set occs"
    "sublist k (case t of None \<Rightarrow> [] | Some s \<Rightarrow> s)" by blast
  have 1: "a \<in> set (fst (modules g))"
    using h(1) by (force simp: modules_def)
  have 2: "b \<in> set (fst (find_modules_directly_imported_by a g))"
    using h(1) by (force simp: find_modules_directly_imported_by_def)
  have 3: "\<lparr>importer = a, imported = b, line_number = n, line_contents = t\<rparr>
            \<in> set (fst (get_import_details a b g))"
    using h(1,2) by (force simp: get_import_details_def)
  have "(a, b, n) \<in> scan_details (fst (get_import_details a b g)) k {}"
    unfolding scan_details_eq using 3 h(3)
    by (force simp: has_inline_ignore_sublist)
  with 1 2 show ?L
    unfolding get_inline_ignored_lines_eq by auto
qed

text \<open>
  C3. For every graph and keyword, \<open>get_inline_ignored_lines\<close> returns the triple
  \<open>(a, b, n)\<close> if and only if the graph records, for the edge from \<open>a\<close> to \<open>b\<close>, an
  occurrence at line \<open>n\<close> whose text contains the keyword as a substring
  (\<open>sublist k s\<close>: \<open>s = ps @ k @ ss\<close> for some \<open>ps\<close> and \<open>ss\<close>); an occurrence with
  no line text counts as one with the empty text, which contains the empty keyword only.
\<close>

theorem C3_scan_returns_marked_occurrences:
  "(a, b, n) \<in> fst (get_inline_ignored_lines g k) \<longleftrightarrow>
     (\<exists>occs t. ((a, b), occs) \<in> set (import_occurrences g) \<and> (n, t) \<in> set occs
        \<and> (case t of None \<Rightarrow> k = [] | Some s \<Rightarrow> sublist k s))"
proof -
  have "\<And>t. sublist k (case t of None \<Rightarrow> [] | Some s \<Rightarrow> s)
      = (case t of None \<Rightarrow> k = [] | Some s \<Rightarrow> sublist k s)"
    by (simp split: option.split)
  then show ?thesis
    unfolding scanned_iff by simp
qed

text \<open>
  The spec's scenario: with the keyword \<open>lint-ignore\<close> the scan of the scenario graph
  returns the occurrence of line 3 and not the one of line 5.
\<close>

theorem C3_scan_scenario_witness:
  "(''a'', ''b'', 3) \<in> fst (get_inline_ignored_lines scenario_graph ''lint-ignore'')
   \<and> (''a'', ''c'', 5) \<notin> fst (get_inline_ignored_lines scenario_graph ''lint-ignore'')"
proof -
  have marked: "sublist ''lint-ignore'' ''import b  # lint-ignore''"
    by (simp add: has_inline_ignore_sublist [symmetric])
  have plain: "\<not> sublist ''lint-ignore'' ''import c''"
    by (simp add: has_inline_ignore_sublist [symmetric])
  have "(''a'', ''b'', 3) \<in> fst (get_inline_ignored_lines scenario_graph ''lint-ignore'')"
    unfolding C3_scan_returns_marked_occurrences
    using marked by (simp add: scenario_graph_def)
  moreover have "(''a'', ''c'', 5) \<notin> fst (get_inline_ignored_lines scenario_graph ''lint-ignore'')"
    unfolding C3_scan_returns_marked_occurrences
    using plain by (simp add: scenario_graph_def)
  ultimately show ?thesis by simp
qed

text \<open>
  C8. \<open>get_inline_ignored_lines\<close> leaves the graph as it found it (it calls the three
  queries of the graph and never \<open>remove_import\<close>), and a second call on the graph the
  first call leaves returns the same set of triples.
\<close>

theorem C8_scan_read_only_and_repeatable:
  "snd (get_inline_ignored_lines g k) = g
   \<and> fst (get_inline_ignored_lines (snd (get_inline_ignored_lines g k)) k)
       = fst (get_inline_ignored_lines g k)"
  by (simp add: get_inline_ignored_lines_eq)

theorem C8_scan_read_only_witness:
  "snd (get_inline_ignored_lines scenario_graph ''lint-ignore'') = scenario_graph
   \<and> fst (get_inline_ignored_lines
        (snd (get_inline_ignored_lines scenario_graph ''lint-ignore'')) ''lint-ignore'')
       = {(''a'', ''b'', 3)}"
proof -
  have "fst (get_inline_ignored_lines scenario_graph ''lint-ignore'') = {(''a'', ''b'', 3)}"
    by (simp add: graph_ops get_inline_ignored_lines_def example_defs)
  then show ?thesis
    using C8_scan_read_only_and_repeatable [of scenario_graph "''lint-ignore''"] by simp
qed

text \<open>
  C10. With the empty string as keyword, \<open>get_inline_ignored_lines\<close> returns a triple
  for every occurrence the graph records, whether its detail has a line text or not:
  the empty string is a substring of every string, also of the empty one that stands for
  a missing text.
\<close>

theorem C10_scan_empty_keyword:
  "(a, b, n) \<in> fst (get_inline_ignored_lines g []) \<longleftrightarrow>
     (\<exists>occs t. ((a, b), occs) \<in> set (import_occurrences g) \<and> (n, t) \<in> set occs)"
  unfolding scanned_iff by simp

theorem C10_scan_empty_keyword_witness:
  "(''a'', ''b'', 3) \<in> fst (get_inline_ignored_lines untexted_graph [])
   \<and> (''a'', ''b'', 4) \<in> fst (get_inline_ignored_lines untexted_graph [])"
  unfolding C10_scan_empty_keyword
  by (simp add: untexted_graph_def)

section \<open>Filtering occurrence details: the claim\<close>

lemma filter_ignored_lines_filter:
  "filter_ignored_lines ds S =
     filter (\<lambda>d. (importer d, imported d, line_number d) \<notin> S) ds"
  by (induction ds) (auto simp: filter_ignored_lines_def)

text \<open>
  C4. \<open>filter_ignored_lines\<close> returns a subsequence of its input (so the entries that
  remain keep their relative order), made of exactly the entries whose triple
  (importer, imported, line number) is not in the ignored set; with the empty ignored set
  the output is the input.
\<close>

theorem C4_filter_ignored_lines_projection:
  "subseq (filter_ignored_lines ds S) ds
   \<and> filter_ignored_lines ds S =
       filter (\<lambda>d. (importer d, imported d, line_number d) \<notin> S) ds
   \<and> filter_ignored_lines ds {} = ds"
  by (simp add: filter_ignored_lines_filter)

theorem C4_filter_ignored_lines_witness:
  "filter_ignored_lines [detail_3, detail_7] {(''a'', ''b'', 3)} = [detail_7]
   \<and> filter_ignored_lines [detail_3, detail_7] {} = [detail_3, detail_7]"
  using C4_filter_ignored_lines_projection [of "[detail_3, detail_7]" "{(''a'', ''b'', 3)}"]
    C4_filter_ignored_lines_projection [of "[detail_3, detail_7]" "{}"]
  by (simp add: detail_3_def detail_7_def)

section \<open>The ignore-rule resolver: its two loops\<close>

lemma collect_matches_graph:
  "snd (collect_matches rt es ((R, U), g)) = g"
  by (induction es arbitrary: R U) (simp_all add: find_matching_direct_imports_def)

lemma collect_matches_to_remove:
  "set (fst (fst (collect_matches rt es ((R, U), g)))) =
     set R \<union> (\<Union>e \<in> set es. (\<lambda>p. DirectImport (Module (fst p)) (Module (snd p))) `
                 {p \<in> direct_imports g. matcher g (expr_str rt e) p})"
proof (induction es arbitrary: R U)
  case Nil
  show ?case by simp
next
  case (Cons e es)
  let ?ms = "filter (matcher g (expr_str rt e)) (map fst (import_occurrences g))"
  have ms: "set ?ms = {p \<in> direct_imports g. matcher g (expr_str rt e) p}"
    by (auto simp: direct_imports_def)
  show ?case
  proof (cases "?ms = []")
    case True
    with ms have "{p \<in> direct_imports g. matcher g (expr_str rt e) p} = {}"
      by simp
    then have img: "(\<lambda>p. DirectImport (Module (fst p)) (Module (snd p))) `
        {p \<in> direct_imports g. matcher g (expr_str rt e) p} = {}"
      by (rule ssubst) simp
    have "set (fst (fst (collect_matches rt (e # es) ((R, U), g)))) =
        set (fst (fst (collect_matches rt es ((R, set_add e U), g))))"
      using True by (simp add: find_matching_direct_imports_def)
    also have "\<dots> = set R \<union> (\<Union>e \<in> set es. (\<lambda>p. DirectImport (Module (fst p)) (Module (snd p))) `
                 {p \<in> direct_imports g. matcher g (expr_str rt e) p})"
      by (rule Cons.IH)
    finally show ?thesis
      unfolding list.set UN_insert img by simp
  next
    case False
    let ?R' = "set_update (import_slot rt) R
      (fold set_add (map (\<lambda>p. DirectImport (Module (fst p)) (Module (snd p))) ?ms) [])"
    have "set ?R' = set R \<union> (\<lambda>p. DirectImport (Module (fst p)) (Module (snd p))) `
        {p \<in> direct_imports g. matcher g (expr_str rt e) p}"
      using ms by (simp add: set_set_update set_fold_set_add)
    then show ?thesis
      using False Cons.IH [of ?R' U]
      by (simp add: find_matching_direct_imports_def Un_assoc)
  qed
qed

lemma collect_matches_unresolved:
  "set (snd (fst (collect_matches rt es ((R, U), g)))) =
     set U \<union> {e \<in> set es. \<forall>p \<in> direct_imports g. \<not> matcher g (expr_str rt e) p}"
proof (induction es arbitrary: R U)
  case Nil
  show ?case by simp
next
  case (Cons e es)
  show ?case
  proof (cases "filter (matcher g (expr_str rt e)) (map fst (import_occurrences g)) = []")
    case True
    then have none: "\<forall>p \<in> direct_imports g. \<not> matcher g (expr_str rt e) p"
      by (auto simp: direct_imports_def filter_empty_conv)
    show ?thesis
      using True Cons.IH [of R "set_add e U"] none
      by (auto simp: find_matching_direct_imports_def set_set_add)
  next
    case False
    then have some: "\<exists>p \<in> direct_imports g. matcher g (expr_str rt e) p"
      by (auto simp: direct_imports_def filter_empty_conv)
    show ?thesis
      using False Cons.IH some
      by (auto simp: find_matching_direct_imports_def)
  qed
qed

lemma collect_matches_distinct:
  "distinct R \<Longrightarrow> distinct U \<Longrightarrow>
     distinct (fst (fst (collect_matches rt es ((R, U), g))))
     \<and> distinct (snd (fst (collect_matches rt es ((R, U), g))))"
proof (induction es arbitrary: R U)
  case Nil
  then show ?case by simp
next
  case (Cons e es)
  then show ?case
    by (simp add: find_matching_direct_imports_def distinct_set_update distinct_set_add)
qed

text \<open>The first loop as a whole, started as the source starts it, with two empty sets.\<close>

lemma collect_matches_split:
  obtains R U where "collect_matches rt es (([], []), g) = ((R, U), g)"
    and "distinct R" and "distinct U"
    and "set R = (\<Union>e \<in> set es. (\<lambda>p. DirectImport (Module (fst p)) (Module (snd p))) `
                 {p \<in> direct_imports g. matcher g (expr_str rt e) p})"
    and "set U = {e \<in> set es. \<forall>p \<in> direct_imports g. \<not> matcher g (expr_str rt e) p}"
proof -
  let ?c = "collect_matches rt es (([], []), g)"
  have "?c = ((fst (fst ?c), snd (fst ?c)), g)"
    using collect_matches_graph [of rt es "[]" "[]" g] by (metis prod.collapse)
  moreover have "distinct (fst (fst ?c))" "distinct (snd (fst ?c))"
    using collect_matches_distinct [of "[]" "[]" rt es g] by simp_all
  moreover have "set (fst (fst ?c)) = (\<Union>e \<in> set es. (\<lambda>p. DirectImport (Module (fst p)) (Module (snd p))) `
                 {p \<in> direct_imports g. matcher g (expr_str rt e) p})"
    using collect_matches_to_remove [of rt es "[]" "[]" g] by simp
  moreover have "set (snd (fst ?c)) = {e \<in> set es. \<forall>p \<in> direct_imports g. \<not> matcher g (expr_str rt e) p}"
    using collect_matches_unresolved [of rt es "[]" "[]" g] by simp
  ultimately show thesis
    using that by blast
qed

lemma remove_all_occurrences:
  "import_occurrences (remove_all ds g) =
     filter (\<lambda>(e, occs). e \<notin> (\<lambda>d. (name (importer_of d), name (imported_of d))) ` set ds)
       (import_occurrences g)"
proof (induction ds arbitrary: g)
  case Nil
  show ?case by simp
next
  case (Cons d ds)
  show ?case
    unfolding remove_all.simps Cons.IH
    by (auto simp: remove_import_def intro!: filter_cong)
qed

lemma remove_all_log:
  "removal_log (remove_all ds g) =
     removal_log g @ map (\<lambda>d. (name (importer_of d), name (imported_of d))) ds"
  by (induction ds arbitrary: g) (simp_all add: remove_import_def)

lemma remove_all_matcher: "matcher (remove_all ds g) = matcher g"
  by (induction ds arbitrary: g) (simp_all add: remove_import_def)

lemma direct_imports_remove_all:
  "direct_imports (remove_all ds g) =
     direct_imports g - (\<lambda>d. (name (importer_of d), name (imported_of d))) ` set ds"
  unfolding direct_imports_def remove_all_occurrences by force

lemma endpoints_of_matches:
  assumes "set R = (\<Union>e \<in> set E. (\<lambda>p. DirectImport (Module (fst p)) (Module (snd p))) `
                 {p \<in> direct_imports g. matcher g (expr_str rt e) p})"
  shows "(\<lambda>d. (name (importer_of d), name (imported_of d))) ` set R =
      {p \<in> direct_imports g. \<exists>e \<in> set E. matcher g (expr_str rt e) p}"
  unfolding assms by (auto simp: image_iff)

lemma inj_endpoints: "inj (\<lambda>d. (name (importer_of d), name (imported_of d)))"
proof (rule injI)
  fix x y :: DirectImport
  assume "(name (importer_of x), name (imported_of x)) = (name (importer_of y), name (imported_of y))"
  then show "x = y"
    by (cases x; cases y) (auto simp: Module.expand)
qed

text \<open>
  \<open>sorted(xs, key=f)[0]\<close> on a non-empty \<open>xs\<close> is an element of \<open>xs\<close> whose key is
  least.
\<close>

lemma hd_sort_key_least:
  assumes "xs \<noteq> []"
  shows "hd (sort_key f xs) \<in> set xs \<and> (\<forall>y \<in> set xs. f (hd (sort_key f xs)) \<le> f y)"
proof -
  from assms have "sort_key f xs \<noteq> []"
    by (metis set_sort set_empty)
  then obtain z zs where zs: "sort_key f xs = z # zs"
    by (cases "sort_key f xs") auto
  have "sorted (map f (z # zs))"
    using sorted_sort_key [of f xs] zs by simp
  then have "\<forall>y \<in> set (z # zs). f z \<le> f y"
    by auto
  moreover have "set (z # zs) = set xs"
    using set_sort [of f xs] zs by simp
  ultimately show ?thesis
    using zs by auto
qed

lemma distinct_count_list_one:
  "distinct xs \<Longrightarrow> x \<in> set xs \<Longrightarrow> count_list xs x = 1"
  by (induction xs) (auto simp: count_list_0_iff)

lemma subset_singleton_Nil: "set ys \<subseteq> {x} \<Longrightarrow> x \<notin> set ys \<Longrightarrow> ys = []"
  by (cases ys) auto

lemma distinct_singleton: "distinct xs \<Longrightarrow> set xs = {x} \<Longrightarrow> xs = [x]"
  by (cases xs) (auto dest: subset_singleton_Nil simp: subset_insert)

section \<open>The ignore-rule resolver: the claims\<close>

text \<open>
  C1. With the alert level \<open>ERROR\<close> and an expression list of which at least one
  expression matches no edge of the graph, \<open>remove_ignored_imports\<close> raises
  \<open>MissingImport\<close>; its message names an unmatched expression of the list whose string
  form is least among the string forms of the unmatched expressions (whatever its place
  in the list), and the graph the call leaves is the graph it was given: no edge was
  removed and \<open>remove_import\<close> was not called.
\<close>

theorem C1_error_level_fails_fast:
  assumes "e0 \<in> set E" and "\<forall>p \<in> direct_imports g. \<not> matcher g (expr_str rt e0) p"
  shows "\<exists>e. e \<in> set E \<and> (\<forall>p \<in> direct_imports g. \<not> matcher g (expr_str rt e) p)
     \<and> (\<forall>e' \<in> set E. (\<forall>p \<in> direct_imports g. \<not> matcher g (expr_str rt e') p)
           \<longrightarrow> expr_str rt e \<le> expr_str rt e')
     \<and> remove_ignored_imports rt g (Some E) ERROR =
         (Inl (MissingImport (''No matches for ignored import '' @ expr_str rt e @ ''.'')), g)"
proof -
  obtain R U where c: "collect_matches rt E (([], []), g) = ((R, U), g)"
    and U: "set U = {e \<in> set E. \<forall>p \<in> direct_imports g. \<not> matcher g (expr_str rt e) p}"
    by (rule collect_matches_split)
  let ?xs = "set_iter (expr_slot rt) U"
  let ?e = "hd (sort_key (expr_str rt) ?xs)"
  from assms U have "e0 \<in> set U" by simp
  then have ne: "U \<noteq> []" "?xs \<noteq> []"
    using set_set_iter [of "expr_slot rt" U] by auto
  from hd_sort_key_least [OF ne(2), of "expr_str rt"]
  have least: "?e \<in> set U" "\<forall>y \<in> set U. expr_str rt ?e \<le> expr_str rt y"
    by (simp_all add: set_set_iter)
  have "remove_ignored_imports rt g (Some E) ERROR =
      (Inl (MissingImport (''No matches for ignored import '' @ expr_str rt ?e @ ''.'')), g)"
    using ne(1)
    by (simp add: remove_ignored_imports_def c handle_unresolved_import_expressions_def
        build_missing_import_message_def)
  moreover have "?e \<in> set E" "\<forall>p \<in> direct_imports g. \<not> matcher g (expr_str rt ?e) p"
    using least(1) unfolding U by simp_all
  moreover have "\<forall>e' \<in> set E. (\<forall>p \<in> direct_imports g. \<not> matcher g (expr_str rt e') p)
           \<longrightarrow> expr_str rt ?e \<le> expr_str rt e'"
    using least(2) unfolding U by simp
  ultimately show ?thesis
    by (intro exI [of _ ?e] conjI)
qed

text \<open>
  On the scenario graph neither \<open>x -> y\<close> nor \<open>p -> q\<close> matches an edge. The error
  names \<open>p -> q\<close>, the smaller string, though \<open>x -> y\<close> comes first in the list, and
  the graph is the one before the call.
\<close>

theorem C1_error_level_witness:
  "remove_ignored_imports insertion_order scenario_graph (Some [''x -> y'', ''p -> q'']) ERROR =
     (Inl (MissingImport ''No matches for ignored import p -> q.''), scenario_graph)"
proof -
  have un: "\<forall>p \<in> direct_imports scenario_graph.
      \<not> matcher scenario_graph (expr_str insertion_order ''x -> y'') p"
    "\<forall>p \<in> direct_imports scenario_graph.
      \<not> matcher scenario_graph (expr_str insertion_order ''p -> q'') p"
    by (simp_all add: graph_ops example_defs)
  have "''x -> y'' \<in> set [''x -> y'', ''p -> q'']" by simp
  from C1_error_level_fails_fast [OF this un(1)]
  obtain e where e: "e \<in> set [''x -> y'', ''p -> q'']"
    and least: "\<forall>e' \<in> set [''x -> y'', ''p -> q''].
        (\<forall>p \<in> direct_imports scenario_graph. \<not> matcher scenario_graph (expr_str insertion_order e') p)
           \<longrightarrow> expr_str insertion_order e \<le> expr_str insertion_order e'"
    and r: "remove_ignored_imports insertion_order scenario_graph
        (Some [''x -> y'', ''p -> q'']) ERROR =
      (Inl (MissingImport (''No matches for ignored import '' @ expr_str insertion_order e @ ''.'')),
       scenario_graph)"
    by blast
  from least un(2) have "expr_str insertion_order e \<le> expr_str insertion_order ''p -> q''"
    by simp
  then have "e \<le> ''p -> q''"
    by (simp add: insertion_order_def)
  with e have "e = ''p -> q''"
    by auto
  with r show ?thesis
    by (simp add: insertion_order_def)
qed

text \<open>
  C2, as the spec states it, fails: the \<open>WARN\<close> branch builds the list by iterating the
  set of unmatched expressions as it is, without sorting it (only the \<open>ERROR\<close> branch
  sorts, to choose one expression). Where the set iterates \<open>x -> y\<close> before \<open>p -> q\<close>,
  the warnings come in that order, which is not the order of the strings.
\<close>

theorem C2_warnings_not_sorted_counterexample:
  "fst (remove_ignored_imports insertion_order scenario_graph
          (Some [''x -> y'', ''p -> q'']) WARN) =
     Inr [''No matches for ignored import x -> y.'', ''No matches for ignored import p -> q.'']
   \<and> \<not> sorted [''x -> y'', ''p -> q'']"
  by (simp add: graph_ops resolver_defs example_defs)

text \<open>
  C2, amended. With the alert level \<open>WARN\<close> and an expression list of which at least one
  expression matches no edge, \<open>remove_ignored_imports\<close> returns a warning list with
  exactly one entry for every distinct unmatched expression, each entry being
  \<open>No matches for ignored import {expr}.\<close>; the entries come in the order in which the
  set of unmatched expressions iterates.
\<close>

theorem C2_one_warning_per_unmatched_expression:
  assumes "e0 \<in> set E" and "\<forall>p \<in> direct_imports g. \<not> matcher g (expr_str rt e0) p"
  shows "\<exists>es. distinct es
     \<and> set es = {e \<in> set E. \<forall>p \<in> direct_imports g. \<not> matcher g (expr_str rt e) p}
     \<and> fst (remove_ignored_imports rt g (Some E) WARN) =
         Inr (map (\<lambda>e. ''No matches for ignored import '' @ expr_str rt e @ ''.'') es)"
proof -
  obtain R U where c: "collect_matches rt E (([], []), g) = ((R, U), g)"
    and d: "distinct U"
    and U: "set U = {e \<in> set E. \<forall>p \<in> direct_imports g. \<not> matcher g (expr_str rt e) p}"
    by (rule collect_matches_split)
  from assms U have "e0 \<in> set U" by simp
  then have ne: "U \<noteq> []" by auto
  have "fst (remove_ignored_imports rt g (Some E) WARN) =
      Inr (map (\<lambda>e. ''No matches for ignored import '' @ expr_str rt e @ ''.'')
        (set_iter (expr_slot rt) U))"
    using ne
    by (simp add: remove_ignored_imports_def c handle_unresolved_import_expressions_def
        build_missing_import_message_def cong: map_cong)
  moreover have "distinct (set_iter (expr_slot rt) U)" "set (set_iter (expr_slot rt) U) = set U"
    using d by (simp_all add: distinct_set_iter set_set_iter)
  ultimately show ?thesis
    unfolding U by (intro exI [of _ "set_iter (expr_slot rt) U"] conjI)
qed

text \<open>
  The spec's scenario: of \<open>a -> b\<close> and \<open>x -> y\<close> only the second matches no edge of the
  scenario graph, and the call returns the one warning for it.
\<close>

theorem C2_one_warning_witness:
  "fst (remove_ignored_imports insertion_order scenario_graph
          (Some [''a -> b'', ''x -> y'']) WARN) =
     Inr [''No matches for ignored import x -> y.'']"
proof -
  have un: "\<forall>p \<in> direct_imports scenario_graph.
      \<not> matcher scenario_graph (expr_str insertion_order ''x -> y'') p"
    by (simp add: graph_ops example_defs)
  have unmatched: "{e \<in> set [''a -> b'', ''x -> y''].
      \<forall>p \<in> direct_imports scenario_graph. \<not> matcher scenario_graph (expr_str insertion_order e) p}
      = {''x -> y''}"
    by (auto simp: graph_ops example_defs)
  have "''x -> y'' \<in> set [''a -> b'', ''x -> y'']" by simp
  from C2_one_warning_per_unmatched_expression [OF this un]
  obtain es where "distinct es" "set es = {''x -> y''}"
    and r: "fst (remove_ignored_imports insertion_order scenario_graph
          (Some [''a -> b'', ''x -> y'']) WARN) =
         Inr (map (\<lambda>e. ''No matches for ignored import '' @ expr_str insertion_order e @ ''.'') es)"
    unfolding unmatched by blast
  then have "es = [''x -> y'']"
    by (simp add: distinct_singleton)
  with r show ?thesis
    by (simp add: insertion_order_def)
qed

text \<open>
  C5. With the alert level \<open>NONE\<close>, for every graph and every expression list,
  \<open>remove_ignored_imports\<close> returns (it does not raise) the empty warning list, however
  many expressions match nothing, and the edges matched by some expression of the list
  are removed: the edges left are those of the graph that no expression matches.
\<close>

theorem C5_none_level_is_silent:
  "fst (remove_ignored_imports rt g (Some E) NONE) = Inr []
   \<and> direct_imports (snd (remove_ignored_imports rt g (Some E) NONE)) =
       {p \<in> direct_imports g. \<not> (\<exists>e \<in> set E. matcher g (expr_str rt e) p)}"
proof -
  obtain R U where c: "collect_matches rt E (([], []), g) = ((R, U), g)"
    and R: "set R = (\<Union>e \<in> set E. (\<lambda>p. DirectImport (Module (fst p)) (Module (snd p))) `
                 {p \<in> direct_imports g. matcher g (expr_str rt e) p})"
    by (rule collect_matches_split)
  have r: "remove_ignored_imports rt g (Some E) NONE =
      (Inr [], remove_all (set_iter (import_slot rt) R) g)"
    by (simp add: remove_ignored_imports_def c handle_unresolved_import_expressions_def)
  show ?thesis
    unfolding r using endpoints_of_matches [OF R]
    by (auto simp: direct_imports_remove_all set_set_iter)
qed

theorem C5_none_level_witness:
  "fst (remove_ignored_imports insertion_order scenario_graph
          (Some [''a -> b'', ''x -> y'']) NONE) = Inr []
   \<and> direct_imports (snd (remove_ignored_imports insertion_order scenario_graph
          (Some [''a -> b'', ''x -> y'']) NONE)) = {(''a'', ''c'')}"
proof -
  have "{p \<in> direct_imports scenario_graph.
      \<not> (\<exists>e \<in> set [''a -> b'', ''x -> y'']. matcher scenario_graph (expr_str insertion_order e) p)}
      = {(''a'', ''c'')}"
    by (auto simp: graph_ops example_defs)
  then show ?thesis
    using C5_none_level_is_silent [of insertion_order scenario_graph "[''a -> b'', ''x -> y'']"]
    by simp
qed

text \<open>
  C6. In a call of \<open>remove_ignored_imports\<close> that does not fail, the calls of
  \<open>remove_import\<close> the call adds to the history of the graph are pairwise different and
  are exactly the edges of the graph that some expression of the list matches: an edge
  matched by two or more expressions is in \<open>imports_to_remove\<close> once, and
  \<open>remove_import\<close> is invoked for it exactly once.
\<close>

theorem C6_each_matched_edge_removed_once:
  assumes "fst (remove_ignored_imports rt g (Some E) lvl) = Inr ws"
  shows "\<exists>calls.
       removal_log (snd (remove_ignored_imports rt g (Some E) lvl)) = removal_log g @ calls
     \<and> distinct calls
     \<and> set calls = {p \<in> direct_imports g. \<exists>e \<in> set E. matcher g (expr_str rt e) p}
     \<and> (\<forall>p \<in> set calls. count_list calls p = 1)"
proof -
  obtain R U where c: "collect_matches rt E (([], []), g) = ((R, U), g)"
    and d: "distinct R"
    and R: "set R = (\<Union>e \<in> set E. (\<lambda>p. DirectImport (Module (fst p)) (Module (snd p))) `
                 {p \<in> direct_imports g. matcher g (expr_str rt e) p})"
    by (rule collect_matches_split)
  let ?calls = "map (\<lambda>d. (name (importer_of d), name (imported_of d)))
      (set_iter (import_slot rt) R)"
  have "snd (remove_ignored_imports rt g (Some E) lvl) =
      remove_all (set_iter (import_slot rt) R) g"
    using assms
    by (simp add: remove_ignored_imports_def c split: sum.splits)
  then have log: "removal_log (snd (remove_ignored_imports rt g (Some E) lvl)) =
      removal_log g @ ?calls"
    by (simp add: remove_all_log)
  have dc: "distinct ?calls"
    using d inj_endpoints
    by (simp add: distinct_map distinct_set_iter inj_on_def inj_def)
  have sc: "set ?calls = {p \<in> direct_imports g. \<exists>e \<in> set E. matcher g (expr_str rt e) p}"
    using endpoints_of_matches [OF R] by (simp add: set_set_iter)
  have "\<forall>p \<in> set ?calls. count_list ?calls p = 1"
    using dc by (simp add: distinct_count_list_one)
  with log dc sc show ?thesis
    by (intro exI [of _ ?calls] conjI)
qed

text \<open>
  On the scenario graph the expressions \<open>a -> b\<close> and \<open>a -> *\<close> both match the edge
  from \<open>a\<close> to \<open>b\<close>; the call, at level \<open>WARN\<close>, returns, and it has invoked
  \<open>remove_import\<close> for that edge once.
\<close>

theorem C6_matched_twice_removed_once_witness:
  "count_list (removal_log (snd (remove_ignored_imports insertion_order scenario_graph
      (Some [''a -> b'', ''a -> *'']) WARN))) (''a'', ''b'') = 1"
proof -
  have ok: "fst (remove_ignored_imports insertion_order scenario_graph
      (Some [''a -> b'', ''a -> *'']) WARN) = Inr []"
    by (simp add: graph_ops resolver_defs example_defs)
  have matched: "(''a'', ''b'') \<in> {p \<in> direct_imports scenario_graph.
      \<exists>e \<in> set [''a -> b'', ''a -> *'']. matcher scenario_graph (expr_str insertion_order e) p}"
    by (simp add: graph_ops example_defs)
  from C6_each_matched_edge_removed_once [OF ok]
  obtain calls where
    log: "removal_log (snd (remove_ignored_imports insertion_order scenario_graph
        (Some [''a -> b'', ''a -> *'']) WARN)) = removal_log scenario_graph @ calls"
    and sc: "set calls = {p \<in> direct_imports scenario_graph.
      \<exists>e \<in> set [''a -> b'', ''a -> *'']. matcher scenario_graph (expr_str insertion_order e) p}"
    and once: "\<forall>p \<in> set calls. count_list calls p = 1"
    by blast
  from matched sc once have "count_list calls (''a'', ''b'') = 1"
    by blast
  with log show ?thesis
    by (simp add: scenario_graph_def)
qed

text \<open>
  C7. When every expression of the list matches at least one edge of the graph, the first
  call of \<open>remove_ignored_imports\<close> returns without a warning, at every alert level, and
  a second call with the same list and level on the graph the first call leaves ends with
  the same set of edges: the edges the first call removed are no longer there to be
  matched, so the second call removes nothing (at level \<open>ERROR\<close> it raises, the
  expressions now matching nothing, and leaves the graph as it is).
\<close>

theorem C7_second_run_keeps_the_edges:
  assumes "\<forall>e \<in> set E. \<exists>p \<in> direct_imports g. matcher g (expr_str rt e) p"
  shows "fst (remove_ignored_imports rt g (Some E) lvl) = Inr []
     \<and> direct_imports (snd (remove_ignored_imports rt
            (snd (remove_ignored_imports rt g (Some E) lvl)) (Some E) lvl))
         = direct_imports (snd (remove_ignored_imports rt g (Some E) lvl))"
proof -
  obtain R U where c: "collect_matches rt E (([], []), g) = ((R, U), g)"
    and R: "set R = (\<Union>e \<in> set E. (\<lambda>p. DirectImport (Module (fst p)) (Module (snd p))) `
                 {p \<in> direct_imports g. matcher g (expr_str rt e) p})"
    and U: "set U = {e \<in> set E. \<forall>p \<in> direct_imports g. \<not> matcher g (expr_str rt e) p}"
    by (rule collect_matches_split)
  let ?g1 = "remove_all (set_iter (import_slot rt) R) g"
  from U assms have "set U = {}" by auto
  then have "U = []" by simp
  then have first: "remove_ignored_imports rt g (Some E) lvl = (Inr [], ?g1)"
    by (simp add: remove_ignored_imports_def c handle_unresolved_import_expressions_def)
  have left: "direct_imports ?g1 =
      {p \<in> direct_imports g. \<not> (\<exists>e \<in> set E. matcher g (expr_str rt e) p)}"
    using endpoints_of_matches [OF R]
    by (auto simp: direct_imports_remove_all set_set_iter)
  obtain R' U' where c': "collect_matches rt E (([], []), ?g1) = ((R', U'), ?g1)"
    and R': "set R' = (\<Union>e \<in> set E. (\<lambda>p. DirectImport (Module (fst p)) (Module (snd p))) `
                 {p \<in> direct_imports ?g1. matcher ?g1 (expr_str rt e) p})"
    by (rule collect_matches_split)
  have "set R' = {}"
    unfolding R' remove_all_matcher left by auto
  then have "R' = []" by simp
  then have "snd (remove_ignored_imports rt ?g1 (Some E) lvl) = ?g1"
    by (simp add: remove_ignored_imports_def c' set_iter_Nil split: sum.splits)
  with first show ?thesis
    by simp
qed

text \<open>
  On the scenario graph \<open>a -> b\<close> matches an edge. At level \<open>ERROR\<close> the first call
  removes it and returns; the second call raises, and the edges are those the first call
  left.
\<close>

theorem C7_second_run_witness:
  "fst (remove_ignored_imports insertion_order scenario_graph (Some [''a -> b'']) ERROR) = Inr []
   \<and> direct_imports (snd (remove_ignored_imports insertion_order
          (snd (remove_ignored_imports insertion_order scenario_graph (Some [''a -> b'']) ERROR))
          (Some [''a -> b'']) ERROR)) = {(''a'', ''c'')}"
proof -
  have full: "\<forall>e \<in> set [''a -> b''].
      \<exists>p \<in> direct_imports scenario_graph. matcher scenario_graph (expr_str insertion_order e) p"
    by (simp add: graph_ops example_defs)
  have "direct_imports (snd (remove_ignored_imports insertion_order scenario_graph
      (Some [''a -> b'']) ERROR)) = {(''a'', ''c'')}"
    by (simp add: graph_ops resolver_defs example_defs)
  with C7_second_run_keeps_the_edges [OF full, of ERROR] show ?thesis
    by simp
qed

text \<open>
  C9. \<open>remove_ignored_imports\<close> takes \<open>None\<close> for \<open>ignore_imports\<close> as it takes the
  empty list: for every graph and alert level the call returns the empty warning list
  (it does not raise) and leaves the graph as it was.
\<close>

theorem C9_none_is_the_empty_list:
  "remove_ignored_imports rt g None lvl = (Inr [], g)
   \<and> remove_ignored_imports rt g None lvl = remove_ignored_imports rt g (Some []) lvl"
  by (simp add: remove_ignored_imports_def handle_unresolved_import_expressions_def set_iter_Nil)

theorem C9_none_witness:
  "remove_ignored_imports insertion_order scenario_graph None ERROR = (Inr [], scenario_graph)
   \<and> remove_ignored_imports insertion_order scenario_graph (Some []) ERROR
       = (Inr [], scenario_graph)"
proof -
  note both = C9_none_is_the_empty_list [of insertion_order scenario_graph ERROR]
  from both have none: "remove_ignored_imports insertion_order scenario_graph None ERROR
      = (Inr [], scenario_graph)"
    by (rule conjunct1)
  from both [THEN conjunct2]
  have "remove_ignored_imports insertion_order scenario_graph (Some []) ERROR
      = remove_ignored_imports insertion_order scenario_graph None ERROR"
    by (rule sym)
  with none show ?thesis
    by simp
qed

end
